theory Spec2Isabelle
  imports Main "HOL-Library.Sublist"
begin

section \<open>Data model\<close>

text \<open>
  \<^verbatim>\<open>type StatusType string\<close> is an open string type with four named constants.
  The model keeps it a string, so that a status read from JSON which is none of
  the four constants is still a value of the type.
\<close>

type_synonym StatusType = string

definition UP :: StatusType where
  "UP = ''up''"

definition DOWN :: StatusType where
  "DOWN = ''down''"

definition STARTING :: StatusType where
  "STARTING = ''starting''"

definition OUTOFSERVICE :: StatusType where
  "OUTOFSERVICE = ''out-of-service''"

text \<open>
  \<^verbatim>\<open>type Instance struct\<close>. The field \<^verbatim>\<open>Id\<close> is named \<open>Id_inst\<close> because \<open>Id\<close> is
  the identity relation of HOL. \<^verbatim>\<open>Port\<close> (Go \<^verbatim>\<open>int\<close>) is only ever compared with
  zero, and \<^verbatim>\<open>LastRenewal\<close> (\<^verbatim>\<open>int64\<close>, Unix seconds) is only ever assigned the
  clock reading by the code; both are mathematical integers here. The ages
  that the sweep compares with its timeouts are differences of two clock
  readings, far from the bounds of \<^verbatim>\<open>int64\<close>.
\<close>

record Instance =
  Id_inst :: string
  IPAddr :: string
  Port :: int
  Status :: StatusType
  LastRenewal :: int

text \<open>\<^verbatim>\<open>type Application struct\<close>: a name and the ordered list of its instances.\<close>

record Application =
  Name :: string
  Instances :: "Instance list"

section \<open>Application and Instance (application.go, instance.go)\<close>

text \<open>
  The declarations below are those of the client package. The server package
  uses \<^verbatim>\<open>Application\<close>, \<^verbatim>\<open>Instance\<close>, \<^verbatim>\<open>NewApplication\<close>, \<^verbatim>\<open>NewInstance\<close> and
  \<^verbatim>\<open>GetInstance\<close> under the same names, with the same fields and JSON tags on
  the wire, and the handlers of the server are read with these declarations.
\<close>

text \<open>\<^verbatim>\<open>NewApplication(name)\<close>: the given name and \<^verbatim>\<open>make([]*Instance, 0)\<close>.\<close>

definition NewApplication :: "string \<Rightarrow> Application" where
  "NewApplication name = \<lparr>Name = name, Instances = []\<rparr>"

text \<open>
  \<^verbatim>\<open>NewInstance(id, ip, port)\<close>. The clock reading \<^verbatim>\<open>time.Now().Unix()\<close> is the
  extra first argument \<open>now\<close>.
\<close>

definition NewInstance :: "int \<Rightarrow> string \<Rightarrow> string \<Rightarrow> int \<Rightarrow> Instance" where
  "NewInstance now iid ip port =
     \<lparr>Id_inst = iid, IPAddr = ip, Port = port, Status = STARTING, LastRenewal = now\<rparr>"

text \<open>
  \<^verbatim>\<open>func (a *Application) GetInstance(id string) *Instance\<close>: the \<^verbatim>\<open>range\<close> loop
  returns at the first instance whose id matches; \<open>None\<close> is the \<^verbatim>\<open>nil\<close> returned
  after the loop.
\<close>

fun GetInstance_loop :: "Instance list \<Rightarrow> string \<Rightarrow> Instance option" where
  "GetInstance_loop [] iid = None"
| "GetInstance_loop (inst # rest) iid =
     (if Id_inst inst = iid then Some inst else GetInstance_loop rest iid)"

definition GetInstance :: "Application \<Rightarrow> string \<Rightarrow> Instance option" where
  "GetInstance a iid = GetInstance_loop (Instances a) iid"

text \<open>
  \<^verbatim>\<open>func (a *Application) GetAvailableInstances() []*Instance\<close>: the accumulator
  starts as \<^verbatim>\<open>make([]*Instance, 0)\<close> and each instance with status \<^verbatim>\<open>UP\<close> is
  appended to it, in the order of the \<^verbatim>\<open>range\<close> loop.
\<close>

fun GetAvailableInstances_loop :: "Instance list \<Rightarrow> Instance list \<Rightarrow> Instance list" where
  "GetAvailableInstances_loop [] instances = instances"
| "GetAvailableInstances_loop (inst # rest) instances =
     (if Status inst = UP then GetAvailableInstances_loop rest (instances @ [inst])
      else GetAvailableInstances_loop rest instances)"

definition GetAvailableInstances :: "Application \<Rightarrow> Instance list" where
  "GetAvailableInstances a = GetAvailableInstances_loop (Instances a) []"

section \<open>The REST server (server.go)\<close>

text \<open>
  Modelled from the spec: \<^verbatim>\<open>Instance.Touch\<close> of the server package is called by
  \<^verbatim>\<open>renewInstance\<close> and \<^verbatim>\<open>deleteInstance\<close> but its body is not among the source
  files. The specification describes it as setting \<open>lastRenewal = now\<close>; every
  other field is left alone. The clock reading is the argument \<open>now\<close>.
\<close>

definition Touch :: "int \<Rightarrow> Instance \<Rightarrow> Instance" where
  "Touch now inst = inst\<lparr>LastRenewal := now\<rparr>"

text \<open>
  \<^verbatim>\<open>renewInstance(inst, w, r)\<close>: the pair is the instance after the call and the
  HTTP status code written to \<^verbatim>\<open>w\<close>. An out-of-service instance is answered with
  403 before anything is written to it.
\<close>

definition renewInstance :: "int \<Rightarrow> Instance \<Rightarrow> Instance \<times> nat" where
  "renewInstance now inst =
     (if Status inst = OUTOFSERVICE then (inst, 403)
      else (Touch now (if Status inst \<noteq> UP then inst\<lparr>Status := UP\<rparr> else inst), 204))"

text \<open>
  \<^verbatim>\<open>deleteInstance(inst, w, r)\<close>: no test of the current status. Its three
  statements are the assignment of \<^verbatim>\<open>OUTOFSERVICE\<close>, the call \<^verbatim>\<open>inst.Touch()\<close> and
  the answer 204. \<open>deleteInstance_on\<close> is that body with the effect of the call to
  \<^verbatim>\<open>Touch\<close> as the argument \<open>touch\<close>, so that what the body itself does can be
  stated for any \<^verbatim>\<open>Touch\<close>; \<open>deleteInstance\<close> is the body with \<open>Touch\<close> as above.
\<close>

definition deleteInstance_on :: "(Instance \<Rightarrow> Instance) \<Rightarrow> Instance \<Rightarrow> Instance \<times> nat" where
  "deleteInstance_on touch inst = (touch (inst\<lparr>Status := OUTOFSERVICE\<rparr>), 204)"

definition deleteInstance :: "int \<Rightarrow> Instance \<Rightarrow> Instance \<times> nat" where
  "deleteInstance now inst = deleteInstance_on (Touch now) inst"

text \<open>\<^verbatim>\<open>type Server struct\<close> and \<^verbatim>\<open>NewServer(addr)\<close>.\<close>

record Server =
  ListenAddr :: string
  Applications :: "Application list"

definition NewServer :: "string \<Rightarrow> Server" where
  "NewServer addr = \<lparr>ListenAddr = addr, Applications = []\<rparr>"

text \<open>
  \<^verbatim>\<open>func (s *Server) GetApplication(name string) *Application\<close>: the first
  application of that name, \<open>None\<close> for the \<^verbatim>\<open>nil\<close> after the loop. There is no
  error result.
\<close>

fun GetApplication_loop :: "Application list \<Rightarrow> string \<Rightarrow> Application option" where
  "GetApplication_loop [] name = None"
| "GetApplication_loop (app # rest) name =
     (if Name app = name then Some app else GetApplication_loop rest name)"

definition GetApplication :: "Server \<Rightarrow> string \<Rightarrow> Application option" where
  "GetApplication s name = GetApplication_loop (Applications s) name"

text \<open>
  The handlers hold pointers: a write through \<^verbatim>\<open>inst\<close> or \<^verbatim>\<open>app\<close> changes the
  object that \<^verbatim>\<open>GetInstance\<close> or \<^verbatim>\<open>GetApplication\<close> found, which is the first one
  with the id or name. The two functions below write a new value at that
  position.
\<close>

fun store_Instance :: "Instance list \<Rightarrow> string \<Rightarrow> Instance \<Rightarrow> Instance list" where
  "store_Instance [] iid new = []"
| "store_Instance (inst # rest) iid new =
     (if Id_inst inst = iid then new # rest else inst # store_Instance rest iid new)"

fun store_Application :: "Application list \<Rightarrow> string \<Rightarrow> Application \<Rightarrow> Application list" where
  "store_Application [] name new = []"
| "store_Application (app # rest) name new =
     (if Name app = name then new # rest else app # store_Application rest name new)"

definition write_Application :: "Server \<Rightarrow> string \<Rightarrow> Application \<Rightarrow> Server" where
  "write_Application s name new =
     s\<lparr>Applications := store_Application (Applications s) name new\<rparr>"

definition write_Instance :: "Server \<Rightarrow> Application \<Rightarrow> string \<Rightarrow> Instance \<Rightarrow> Server" where
  "write_Instance s app iid new =
     write_Application s (Name app)
       (app\<lparr>Instances := store_Instance (Instances app) iid new\<rparr>)"

text \<open>
  \<^verbatim>\<open>newApp(w, r)\<close>: the body is \<open>None\<close> when it cannot be read or is not JSON
  (answered with 400), otherwise the \<^verbatim>\<open>name\<close> field that was decoded.
\<close>

definition newApp :: "string option \<Rightarrow> nat + Application" where
  "newApp body = (case body of None \<Rightarrow> Inl 400 | Some name \<Rightarrow> Inr (NewApplication name))"

text \<open>
  \<^verbatim>\<open>listAppsHandler\<close> for \<^verbatim>\<open>/apps\<close>. A \<^verbatim>\<open>GET\<close> lists the applications (200); a
  \<^verbatim>\<open>POST\<close> creates the application unless the name is taken (409); any other
  method is answered with 405.
\<close>

definition listAppsHandler :: "Server \<Rightarrow> string \<Rightarrow> string option \<Rightarrow> Server \<times> nat" where
  "listAppsHandler s method body =
     (if method = ''GET'' then (s, 200)
      else if method = ''POST'' then
        (case newApp body of
           Inl code \<Rightarrow> (s, code)
         | Inr app \<Rightarrow>
             if GetApplication s (Name app) \<noteq> None then (s, 409)
             else (s\<lparr>Applications := Applications s @ [app]\<rparr>, 201))
      else (s, 405))"

text \<open>
  \<^verbatim>\<open>newInstance(w, r)\<close>: the decoded request, \<open>None\<close> for a body that cannot be
  read or decoded. A missing id, address or port is answered with 400.
\<close>

record InstanceRequest =
  req_Id :: string
  req_Ip :: string
  req_Port :: int

definition newInstance :: "int \<Rightarrow> InstanceRequest option \<Rightarrow> nat + Instance" where
  "newInstance now body =
     (case body of
        None \<Rightarrow> Inl 400
      | Some request \<Rightarrow>
          if req_Id request = [] \<or> req_Ip request = [] \<or> req_Port request = 0 then Inl 400
          else Inr (NewInstance now (req_Id request) (req_Ip request) (req_Port request)))"

text \<open>
  \<^verbatim>\<open>viewAppHandler\<close> for \<^verbatim>\<open>/apps/{appName}\<close>. The \<^verbatim>\<open>switch\<close> has no default
  case: a handler that returns without writing a header answers 200.
\<close>

definition viewAppHandler ::
  "int \<Rightarrow> Server \<Rightarrow> string \<Rightarrow> string \<Rightarrow> InstanceRequest option \<Rightarrow> Server \<times> nat" where
  "viewAppHandler now s appName method body =
     (case GetApplication s appName of
        None \<Rightarrow> (s, 404)
      | Some app \<Rightarrow>
          if method = ''GET'' then (s, 200)
          else if method = ''POST'' then
            (case newInstance now body of
               Inl code \<Rightarrow> (s, code)
             | Inr inst \<Rightarrow>
                 if GetInstance app (Id_inst inst) \<noteq> None then (s, 409)
                 else (write_Application s appName
                         (app\<lparr>Instances := Instances app @ [inst]\<rparr>), 201))
          else (s, 200))"

text \<open>\<^verbatim>\<open>viewInstanceHandler\<close> for \<^verbatim>\<open>/apps/{appName}/{instanceId}\<close>.\<close>

definition viewInstanceHandler ::
  "int \<Rightarrow> Server \<Rightarrow> string \<Rightarrow> string \<Rightarrow> string \<Rightarrow> Server \<times> nat" where
  "viewInstanceHandler now s appName instanceId method =
     (case GetApplication s appName of
        None \<Rightarrow> (s, 404)
      | Some app \<Rightarrow>
          (case GetInstance app instanceId of
             None \<Rightarrow> (s, 404)
           | Some inst \<Rightarrow>
               if method = ''GET'' then (s, 200)
               else if method = ''PUT'' then
                 (case renewInstance now inst of
                    (inst', code) \<Rightarrow> (write_Instance s app instanceId inst', code))
               else if method = ''DELETE'' then
                 (case deleteInstance now inst of
                    (inst', code) \<Rightarrow> (write_Instance s app instanceId inst', code))
               else (s, 200)))"

section \<open>The staleness sweep\<close>

text \<open>
  \<^verbatim>\<open>Application.CheckHeartbeats\<close> of the server package is called by
  \<^verbatim>\<open>Server.CheckHeartbeats\<close> but its body is not among the source files. The
  specification gives two rules, applied to every instance in this order on
  each tick: the missed-heartbeat rule, then the eviction rule. The two
  timeouts are policy (90 seconds and 10 minutes by default), so they are
  arguments.
\<close>

text \<open>
  Modelled from the spec: the condition of the missed-heartbeat rule of
  \<^verbatim>\<open>Application.CheckHeartbeats\<close>, \<open>now - lastRenewal > renewalTimeout\<close> with the
  status \<open>STARTING\<close> or \<open>UP\<close>.
\<close>

definition missedHeartbeat :: "int \<Rightarrow> int \<Rightarrow> Instance \<Rightarrow> bool" where
  "missedHeartbeat renewalTimeout now inst =
     (now - LastRenewal inst > renewalTimeout \<and> (Status inst = STARTING \<or> Status inst = UP))"

text \<open>
  Modelled from the spec: the condition of the eviction rule of
  \<^verbatim>\<open>Application.CheckHeartbeats\<close>, the status \<open>DOWN\<close> with
  \<open>now - lastRenewal > evictionTimeout\<close>.
\<close>

definition evictable :: "int \<Rightarrow> int \<Rightarrow> Instance \<Rightarrow> bool" where
  "evictable evictionTimeout now inst =
     (Status inst = DOWN \<and> now - LastRenewal inst > evictionTimeout)"

text \<open>
  Modelled from the spec: the loop of \<^verbatim>\<open>Application.CheckHeartbeats\<close> over the
  instances. An instance that missed its heartbeat becomes \<open>DOWN\<close> and its
  \<open>lastRenewal\<close> is not touched; otherwise an evictable instance is removed from
  the collection; otherwise the instance stays as it is. An instance marked
  \<open>DOWN\<close> in a tick is therefore not evicted in that tick.
\<close>

fun sweep_Instances :: "int \<Rightarrow> int \<Rightarrow> int \<Rightarrow> Instance list \<Rightarrow> Instance list" where
  "sweep_Instances renewalTimeout evictionTimeout now [] = []"
| "sweep_Instances renewalTimeout evictionTimeout now (inst # rest) =
     (if missedHeartbeat renewalTimeout now inst
      then inst\<lparr>Status := DOWN\<rparr> # sweep_Instances renewalTimeout evictionTimeout now rest
      else if evictable evictionTimeout now inst
      then sweep_Instances renewalTimeout evictionTimeout now rest
      else inst # sweep_Instances renewalTimeout evictionTimeout now rest)"

text \<open>
  Modelled from the spec: \<^verbatim>\<open>Application.CheckHeartbeats\<close>, which replaces the
  application's instances by the swept ones and keeps its name.
\<close>

definition Application_CheckHeartbeats :: "int \<Rightarrow> int \<Rightarrow> int \<Rightarrow> Application \<Rightarrow> Application" where
  "Application_CheckHeartbeats renewalTimeout evictionTimeout now app =
     app\<lparr>Instances := sweep_Instances renewalTimeout evictionTimeout now (Instances app)\<rparr>"

text \<open>
  \<^verbatim>\<open>func (s *Server) CheckHeartbeats()\<close>: every application is swept, in order.
  One tick reads the clock once in this model.
\<close>

fun CheckHeartbeats_loop :: "int \<Rightarrow> int \<Rightarrow> int \<Rightarrow> Application list \<Rightarrow> Application list" where
  "CheckHeartbeats_loop renewalTimeout evictionTimeout now [] = []"
| "CheckHeartbeats_loop renewalTimeout evictionTimeout now (app # rest) =
     Application_CheckHeartbeats renewalTimeout evictionTimeout now app
       # CheckHeartbeats_loop renewalTimeout evictionTimeout now rest"

definition CheckHeartbeats :: "int \<Rightarrow> int \<Rightarrow> int \<Rightarrow> Server \<Rightarrow> Server" where
  "CheckHeartbeats renewalTimeout evictionTimeout now s =
     s\<lparr>Applications :=
         CheckHeartbeats_loop renewalTimeout evictionTimeout now (Applications s)\<rparr>"

section \<open>The client (client.go)\<close>

text \<open>
  The client's calls are run against the server's handlers: the server state is
  threaded through, the transport is taken to deliver every request and
  response, and a response code other than the expected one is
  \<^verbatim>\<open>UnexpectedCodeError\<close>. \<open>AppNotFound\<close> is the error value that \<^verbatim>\<open>GetApp\<close> builds
  with \<^verbatim>\<open>errors.New\<close> when no application has the name. Only the client's two
  requests on the fixed URL \<^verbatim>\<open>/apps\<close> are given here; the calls whose URL is
  built from an application name or an instance id (\<^verbatim>\<open>Client.NewInstance\<close>,
  \<^verbatim>\<open>RenewInstance\<close>, \<^verbatim>\<open>DeleteInstance\<close>, \<^verbatim>\<open>UpdateApplication\<close>) depend on how
  the router splits that URL and are left out.
\<close>

datatype error = AppNotFound string | UnexpectedCodeError nat

text \<open>\<^verbatim>\<open>GetApps\<close>: a \<^verbatim>\<open>GET\<close> of \<^verbatim>\<open>/apps\<close>, expecting 200, decoded to the list.\<close>

definition GetApps :: "Server \<Rightarrow> error + Application list" where
  "GetApps s =
     (case listAppsHandler s ''GET'' None of
        (s', code) \<Rightarrow>
          if code \<noteq> 200 then Inl (UnexpectedCodeError code) else Inr (Applications s'))"

fun GetApp_loop :: "Application list \<Rightarrow> string \<Rightarrow> error + Application" where
  "GetApp_loop [] name = Inl (AppNotFound name)"
| "GetApp_loop (app # rest) name =
     (if Name app = name then Inr app else GetApp_loop rest name)"

definition GetApp :: "Server \<Rightarrow> string \<Rightarrow> error + Application" where
  "GetApp s name =
     (case GetApps s of Inl err \<Rightarrow> Inl err | Inr apps \<Rightarrow> GetApp_loop apps name)"

text \<open>\<^verbatim>\<open>NewApp\<close>: a \<^verbatim>\<open>POST\<close> of the new application to \<^verbatim>\<open>/apps\<close>, expecting 201.\<close>

definition NewApp :: "Server \<Rightarrow> string \<Rightarrow> Server \<times> (error + Application)" where
  "NewApp s name =
     (let app = NewApplication name in
      case listAppsHandler s ''POST'' (Some (Name app)) of
        (s', code) \<Rightarrow>
          if code \<noteq> 201 then (s', Inl (UnexpectedCodeError code)) else (s', Inr app))"

text \<open>
  The first step of \<^verbatim>\<open>RegisterService\<close> (the lines up to the call of
  \<^verbatim>\<open>c.NewInstance\<close>): the application is looked up, and registered when the
  lookup returns an error.
\<close>

definition RegisterService_app :: "Server \<Rightarrow> string \<Rightarrow> Server \<times> (error + Application)" where
  "RegisterService_app s appName =
     (case GetApp s appName of
        Inr app \<Rightarrow> (s, Inr app)
      | Inl err \<Rightarrow> NewApp s appName)"

section \<open>The two queries on a store of pointers\<close>

text \<open>
  \<^verbatim>\<open>Instances []*Instance\<close> is a slice of pointers. To say what a query leaves
  alone, the two queries of \<^verbatim>\<open>Application\<close> are given a second time over an
  explicit store: \<open>instance_at\<close> holds the \<^verbatim>\<open>Instance\<close> objects, \<open>slice_at\<close> holds
  the backing arrays of the slices, and \<open>next_addr\<close> is the next address that
  \<^verbatim>\<open>make\<close> hands out. A pointer with no object behind it is \<^verbatim>\<open>nil\<close>, and reading
  a field through it is the run-time panic of Go.
\<close>

type_synonym addr = nat

record Store =
  instance_at :: "addr \<rightharpoonup> Instance"
  slice_at :: "addr \<rightharpoonup> addr list"
  next_addr :: addr

record Application_ptr =
  Name_ptr :: string
  Instances_ptr :: addr

datatype panic = NilPointerDereference

text \<open>The elements of a slice; a \<^verbatim>\<open>nil\<close> slice has none.\<close>

definition slice_of :: "Store \<Rightarrow> addr \<Rightarrow> addr list" where
  "slice_of st r = (case slice_at st r of None \<Rightarrow> [] | Some ps \<Rightarrow> ps)"

text \<open>\<^verbatim>\<open>make([]*Instance, 0)\<close>: an empty slice at a new address.\<close>

definition make_slice :: "Store \<Rightarrow> Store \<times> addr" where
  "make_slice st =
     (st\<lparr>slice_at := (slice_at st)(next_addr st \<mapsto> []), next_addr := Suc (next_addr st)\<rparr>,
      next_addr st)"

text \<open>\<^verbatim>\<open>instances = append(instances, inst)\<close> for the slice at \<open>r\<close>.\<close>

definition append_slice :: "Store \<Rightarrow> addr \<Rightarrow> addr \<Rightarrow> Store" where
  "append_slice st r p = st\<lparr>slice_at := (slice_at st)(r \<mapsto> slice_of st r @ [p])\<rparr>"

text \<open>
  \<^verbatim>\<open>GetInstance\<close> on the store: the pointer to the first instance with the id, or
  \<open>None\<close> for \<^verbatim>\<open>nil\<close>. It writes nothing, so it returns no store.
\<close>

fun GetInstance_store_loop :: "Store \<Rightarrow> addr list \<Rightarrow> string \<Rightarrow> panic + addr option" where
  "GetInstance_store_loop st [] iid = Inr None"
| "GetInstance_store_loop st (p # rest) iid =
     (case instance_at st p of
        None \<Rightarrow> Inl NilPointerDereference
      | Some inst \<Rightarrow>
          if Id_inst inst = iid then Inr (Some p) else GetInstance_store_loop st rest iid)"

definition GetInstance_store :: "Store \<Rightarrow> Application_ptr \<Rightarrow> string \<Rightarrow> panic + addr option" where
  "GetInstance_store st a iid = GetInstance_store_loop st (slice_of st (Instances_ptr a)) iid"

text \<open>
  \<^verbatim>\<open>GetAvailableInstances\<close> on the store: the result slice is made first, the
  \<^verbatim>\<open>range\<close> expression is read once, and every pointer to an instance with status
  \<^verbatim>\<open>UP\<close> is appended to the result. The store after the call and the address of
  the result slice are returned.
\<close>

fun GetAvailableInstances_store_loop :: "addr list \<Rightarrow> Store \<Rightarrow> addr \<Rightarrow> panic + Store" where
  "GetAvailableInstances_store_loop [] st r = Inr st"
| "GetAvailableInstances_store_loop (p # rest) st r =
     (case instance_at st p of
        None \<Rightarrow> Inl NilPointerDereference
      | Some inst \<Rightarrow>
          if Status inst = UP
          then GetAvailableInstances_store_loop rest (append_slice st r p) r
          else GetAvailableInstances_store_loop rest st r)"

definition GetAvailableInstances_store ::
  "Store \<Rightarrow> Application_ptr \<Rightarrow> panic + Store \<times> addr" where
  "GetAvailableInstances_store st a =
     (case make_slice st of
        (st1, r) \<Rightarrow>
          (case GetAvailableInstances_store_loop (slice_of st1 (Instances_ptr a)) st1 r of
             Inl e \<Rightarrow> Inl e
           | Inr st2 \<Rightarrow> Inr (st2, r)))"

text \<open>
  A store is well formed for an application when every slice lies below the
  allocation mark, the application's slice is allocated, and none of its
  pointers is \<^verbatim>\<open>nil\<close>.
\<close>

definition wf_Store :: "Store \<Rightarrow> Application_ptr \<Rightarrow> bool" where
  "wf_Store st a =
     (dom (slice_at st) \<subseteq> {..<next_addr st}
      \<and> Instances_ptr a \<in> dom (slice_at st)
      \<and> set (slice_of st (Instances_ptr a)) \<subseteq> dom (instance_at st))"

text \<open>The instance behind a pointer, and the application as a value.\<close>

definition deref :: "Store \<Rightarrow> addr \<Rightarrow> Instance" where
  "deref st p = the (instance_at st p)"

definition Application_of :: "Store \<Rightarrow> Application_ptr \<Rightarrow> Application" where
  "Application_of st a =
     \<lparr>Name = Name_ptr a, Instances = map (deref st) (slice_of st (Instances_ptr a))\<rparr>"

section \<open>Invariants of the data model\<close>

text \<open>
  Within an application no two instances have the same id, and no two
  applications of a server have the same name. The handlers keep both: a
  \<^verbatim>\<open>POST\<close> of an id or a name that is taken is answered with 409.
\<close>

definition ids_distinct :: "Server \<Rightarrow> bool" where
  "ids_distinct s = list_all (\<lambda>app. distinct (map Id_inst (Instances app))) (Applications s)"

definition names_distinct :: "Server \<Rightarrow> bool" where
  "names_distinct s = distinct (map Name (Applications s))"

section \<open>Example values\<close>

definition ex_inst :: "StatusType \<Rightarrow> int \<Rightarrow> Instance" where
  "ex_inst st t =
     \<lparr>Id_inst = ''i1'', IPAddr = ''10.0.0.1'', Port = 9000, Status = st, LastRenewal = t\<rparr>"

definition ex_server :: "Instance list \<Rightarrow> Server" where
  "ex_server insts =
     \<lparr>ListenAddr = '':8080'',
      Applications = [\<lparr>Name = ''orders-api'', Instances = insts\<rparr>]\<rparr>"

definition ex_store :: Store where
  "ex_store =
     \<lparr>instance_at = [10 \<mapsto> ex_inst UP 100, 11 \<mapsto> ex_inst DOWN 50],
      slice_at = [20 \<mapsto> [10, 11]],
      next_addr = 21\<rparr>"

definition ex_app_ptr :: Application_ptr where
  "ex_app_ptr = \<lparr>Name_ptr = ''orders-api'', Instances_ptr = 20\<rparr>"

section \<open>Basic facts\<close>

lemma status_distinct:
  "UP \<noteq> DOWN" "UP \<noteq> STARTING" "UP \<noteq> OUTOFSERVICE"
  "DOWN \<noteq> UP" "DOWN \<noteq> STARTING" "DOWN \<noteq> OUTOFSERVICE"
  "STARTING \<noteq> UP" "STARTING \<noteq> DOWN" "STARTING \<noteq> OUTOFSERVICE"
  "OUTOFSERVICE \<noteq> UP" "OUTOFSERVICE \<noteq> DOWN" "OUTOFSERVICE \<noteq> STARTING"
  by (simp_all add: UP_def DOWN_def STARTING_def OUTOFSERVICE_def)

lemma GetAvailableInstances_loop_filter:
  "GetAvailableInstances_loop xs acc = acc @ filter (\<lambda>i. Status i = UP) xs"
  by (induction xs arbitrary: acc) simp_all

lemma GetInstance_loop_find:
  "GetInstance_loop xs iid = find (\<lambda>i. Id_inst i = iid) xs"
  by (induction xs) simp_all

subsection \<open>Lookups and pointer writes\<close>

lemma GetInstance_loop_None:
  "GetInstance_loop xs iid = None \<longleftrightarrow> iid \<notin> Id_inst ` set xs"
  by (induction xs) auto

lemma GetInstance_loop_first:
  "iid \<notin> Id_inst ` set pre \<Longrightarrow> Id_inst inst = iid \<Longrightarrow>
   GetInstance_loop (pre @ inst # post) iid = Some inst"
  by (induction pre) auto

lemma GetInstance_loop_snoc:
  "GetInstance_loop xs iid = None \<Longrightarrow> Id_inst new = iid \<Longrightarrow>
   GetInstance_loop (xs @ [new]) iid = Some new"
  by (induction xs) (auto split: if_splits)

lemma GetApplication_loop_find:
  "GetApplication_loop xs name = find (\<lambda>a. Name a = name) xs"
  by (induction xs) simp_all

lemma GetApplication_loop_None:
  "GetApplication_loop xs name = None \<longleftrightarrow> name \<notin> Name ` set xs"
  by (induction xs) auto

lemma GetApplication_loop_Some:
  "GetApplication_loop xs name = Some app \<Longrightarrow> app \<in> set xs \<and> Name app = name"
  by (induction xs) (auto split: if_splits)

lemma GetApplication_loop_Name:
  "GetApplication_loop xs name = Some app \<Longrightarrow> Name app = name"
  by (induction xs) (auto split: if_splits)

lemma GetApplication_loop_distinct:
  "distinct (map Name xs) \<Longrightarrow> app \<in> set xs \<Longrightarrow> GetApplication_loop xs (Name app) = Some app"
  by (induction xs) (auto simp: image_iff)

lemma GetApplication_loop_snoc:
  "GetApplication_loop xs name = None \<Longrightarrow> Name new = name \<Longrightarrow>
   GetApplication_loop (xs @ [new]) name = Some new"
  by (induction xs) (auto split: if_splits)

lemma GetApplication_loop_store:
  "GetApplication_loop xs name = Some app \<Longrightarrow> Name new = name \<Longrightarrow>
   GetApplication_loop (store_Application xs name new) name = Some new"
  by (induction xs) (auto split: if_splits)

lemma store_Instance_same:
  "GetInstance_loop xs iid = Some inst \<Longrightarrow> store_Instance xs iid inst = xs"
  by (induction xs) (auto split: if_splits)

lemma store_Application_same:
  "GetApplication_loop xs name = Some app \<Longrightarrow> store_Application xs name app = xs"
  by (induction xs) (auto split: if_splits)

lemma write_Instance_same:
  "GetApplication s appName = Some app \<Longrightarrow> GetInstance app iid = Some inst \<Longrightarrow>
   write_Instance s app iid inst = s"
  by (simp add: write_Instance_def write_Application_def GetApplication_def GetInstance_def
      store_Instance_same store_Application_same GetApplication_loop_Name)

subsection \<open>The sweep\<close>

lemma sweep_Instances_append:
  "sweep_Instances rt et now (xs @ ys) = sweep_Instances rt et now xs @ sweep_Instances rt et now ys"
  by (induction xs) simp_all

lemma sweep_Instances_map_filter:
  "sweep_Instances rt et now xs =
     map (\<lambda>i. if missedHeartbeat rt now i then i\<lparr>Status := DOWN\<rparr> else i)
       (filter (\<lambda>i. \<not> evictable et now i) xs)"
  by (induction xs) (auto simp: missedHeartbeat_def evictable_def status_distinct)

lemma sweep_Instances_ids:
  "map Id_inst (sweep_Instances rt et now xs) = map Id_inst (filter (\<lambda>i. \<not> evictable et now i) xs)"
  by (induction xs) (auto simp: missedHeartbeat_def evictable_def status_distinct)

lemma sweep_Instances_distinct:
  "distinct (map Id_inst xs) \<Longrightarrow> distinct (map Id_inst (sweep_Instances rt et now xs))"
  by (simp add: sweep_Instances_ids distinct_map_filter)

lemma GetApplication_loop_sweep:
  "GetApplication_loop (CheckHeartbeats_loop rt et now apps) name
     = map_option (Application_CheckHeartbeats rt et now) (GetApplication_loop apps name)"
  by (induction apps) (simp_all add: Application_CheckHeartbeats_def)

lemma evicted_id_absent:
  assumes "distinct (map Id_inst xs)" "inst \<in> set xs" "evictable et now inst"
  shows "Id_inst inst \<notin> Id_inst ` set (sweep_Instances rt et now xs)"
proof -
  have "Id_inst ` set (sweep_Instances rt et now xs)
          = set (map Id_inst (sweep_Instances rt et now xs))" by simp
  also have "\<dots> = Id_inst ` {i \<in> set xs. \<not> evictable et now i}"
    by (simp add: sweep_Instances_ids)
  finally have eq: "Id_inst ` set (sweep_Instances rt et now xs)
          = Id_inst ` {i \<in> set xs. \<not> evictable et now i}" .
  have "Id_inst inst \<notin> Id_inst ` {i \<in> set xs. \<not> evictable et now i}"
  proof
    assume "Id_inst inst \<in> Id_inst ` {i \<in> set xs. \<not> evictable et now i}"
    then obtain j where j: "j \<in> set xs" "\<not> evictable et now j" "Id_inst j = Id_inst inst"
      by auto
    from assms(1) j(1) assms(2) j(3) have "j = inst"
      by (meson distinct_map inj_onD)
    with j(2) assms(3) show False by simp
  qed
  with eq show ?thesis by simp
qed

subsection \<open>The client\<close>

lemma GetApp_loop_GetApplication_loop:
  "GetApp_loop xs name =
     (case GetApplication_loop xs name of None \<Rightarrow> Inl (AppNotFound name) | Some app \<Rightarrow> Inr app)"
  by (induction xs) simp_all

lemma GetApp_GetApplication:
  "GetApp s name =
     (case GetApplication s name of None \<Rightarrow> Inl (AppNotFound name) | Some app \<Rightarrow> Inr app)"
  by (simp add: GetApp_def GetApps_def listAppsHandler_def GetApplication_def
      GetApp_loop_GetApplication_loop)

lemma RegisterService_app_found:
  "GetApplication s name = Some app \<Longrightarrow> RegisterService_app s name = (s, Inr app)"
  by (simp add: RegisterService_app_def GetApp_GetApplication)

lemma RegisterService_app_absent:
  "GetApplication s name = None \<Longrightarrow>
   RegisterService_app s name =
     (s\<lparr>Applications := Applications s @ [NewApplication name]\<rparr>, Inr (NewApplication name))"
  by (simp add: RegisterService_app_def GetApp_GetApplication NewApp_def listAppsHandler_def
      newApp_def NewApplication_def Let_def)

subsection \<open>The store\<close>

lemma GetAvailableInstances_store_loop_filter:
  "set ps \<subseteq> dom (instance_at st) \<Longrightarrow> slice_at st r = Some acc \<Longrightarrow>
   GetAvailableInstances_store_loop ps st r =
     Inr (st\<lparr>slice_at := (slice_at st)(r \<mapsto> acc @ filter (\<lambda>p. Status (deref st p) = UP) ps)\<rparr>)"
proof (induction ps arbitrary: st acc)
  case Nil
  then show ?case by (simp add: map_upd_triv)
next
  case (Cons p ps)
  from Cons.prems(1) obtain inst where inst: "instance_at st p = Some inst" by auto
  show ?case
  proof (cases "Status inst = UP")
    case True
    let ?st = "append_slice st r p"
    have 1: "set ps \<subseteq> dom (instance_at ?st)"
      using Cons.prems(1) by (simp add: append_slice_def)
    have 2: "slice_at ?st r = Some (acc @ [p])"
      using Cons.prems(2) by (simp add: append_slice_def slice_of_def)
    have 3: "deref ?st = deref st"
      by (simp add: deref_def append_slice_def fun_eq_iff)
    have 4: "?st\<lparr>slice_at := (slice_at ?st)(r \<mapsto> xs)\<rparr>
               = st\<lparr>slice_at := (slice_at st)(r \<mapsto> xs)\<rparr>" for xs
      by (simp add: append_slice_def)
    have "GetAvailableInstances_store_loop (p # ps) st r
            = GetAvailableInstances_store_loop ps ?st r"
      using inst True by simp
    also have "\<dots> = Inr (st\<lparr>slice_at := (slice_at st)(r \<mapsto>
                     (acc @ [p]) @ filter (\<lambda>p. Status (deref st p) = UP) ps)\<rparr>)"
      using Cons.IH [OF 1 2] by (simp only: 3 4)
    also have "(acc @ [p]) @ filter (\<lambda>p. Status (deref st p) = UP) ps
                 = acc @ filter (\<lambda>p. Status (deref st p) = UP) (p # ps)"
      using inst True by (simp add: deref_def)
    finally show ?thesis .
  next
    case False
    have 1: "set ps \<subseteq> dom (instance_at st)"
      using Cons.prems(1) by simp
    show ?thesis
      using Cons.IH [OF 1 Cons.prems(2)] inst False
      by (simp add: deref_def)
  qed
qed

lemma GetInstance_store_loop_find:
  "set ps \<subseteq> dom (instance_at st) \<Longrightarrow>
   GetInstance_store_loop st ps iid = Inr (find (\<lambda>p. Id_inst (deref st p) = iid) ps)"
  by (induction ps) (auto simp: deref_def)

lemma find_map_deref:
  "map_option (deref st) (find (\<lambda>p. Id_inst (deref st p) = iid) ps)
     = find (\<lambda>i. Id_inst i = iid) (map (deref st) ps)"
  by (induction ps) simp_all

lemma GetAvailableInstances_store_result:
  assumes "wf_Store st a"
  shows "GetAvailableInstances_store st a =
           Inr (st\<lparr>slice_at := (slice_at st)(next_addr st \<mapsto>
                      filter (\<lambda>p. Status (deref st p) = UP) (slice_of st (Instances_ptr a))),
                    next_addr := Suc (next_addr st)\<rparr>,
                next_addr st)"
proof -
  let ?st1 = "fst (make_slice st)"
  from assms have lt: "Instances_ptr a < next_addr st"
    by (auto simp: wf_Store_def)
  then have ne: "Instances_ptr a \<noteq> next_addr st" by simp
  have same: "slice_of ?st1 (Instances_ptr a) = slice_of st (Instances_ptr a)"
    using ne by (simp add: make_slice_def slice_of_def)
  have 1: "set (slice_of st (Instances_ptr a)) \<subseteq> dom (instance_at ?st1)"
    using assms by (simp add: wf_Store_def make_slice_def)
  have 2: "slice_at ?st1 (next_addr st) = Some []"
    by (simp add: make_slice_def)
  have 3: "deref ?st1 = deref st"
    by (simp add: deref_def make_slice_def fun_eq_iff)
  show ?thesis
    using GetAvailableInstances_store_loop_filter [OF 1 2] same
    by (simp add: GetAvailableInstances_store_def 3 split_beta)
       (simp add: make_slice_def)
qed

subsection \<open>The invariants are kept\<close>

lemma GetInstance_loop_Id:
  "GetInstance_loop xs iid = Some inst \<Longrightarrow> Id_inst inst = iid"
  by (induction xs) (auto split: if_splits)

lemma store_Instance_ids:
  "Id_inst new = iid \<Longrightarrow> map Id_inst (store_Instance xs iid new) = map Id_inst xs"
  by (induction xs) auto

lemma store_Application_names:
  "Name new = name \<Longrightarrow> map Name (store_Application xs name new) = map Name xs"
  by (induction xs) auto

lemma store_Application_list_all:
  "list_all P xs \<Longrightarrow> P new \<Longrightarrow> list_all P (store_Application xs name new)"
  by (induction xs) auto

lemma CheckHeartbeats_loop_names:
  "map Name (CheckHeartbeats_loop rt et now apps) = map Name apps"
  by (induction apps) (simp_all add: Application_CheckHeartbeats_def)

lemma CheckHeartbeats_loop_ids:
  "list_all (\<lambda>app. distinct (map Id_inst (Instances app))) apps \<Longrightarrow>
   list_all (\<lambda>app. distinct (map Id_inst (Instances app))) (CheckHeartbeats_loop rt et now apps)"
  by (induction apps) (simp_all add: Application_CheckHeartbeats_def sweep_Instances_distinct)

lemma renewInstance_Id: "Id_inst (fst (renewInstance now inst)) = Id_inst inst"
  by (simp add: renewInstance_def Touch_def)

lemma deleteInstance_Id: "Id_inst (fst (deleteInstance now inst)) = Id_inst inst"
  by (simp add: deleteInstance_def deleteInstance_on_def Touch_def)

lemma NewServer_invariant: "ids_distinct (NewServer addr) \<and> names_distinct (NewServer addr)"
  by (simp add: ids_distinct_def names_distinct_def NewServer_def)

lemma listAppsHandler_invariant:
  assumes "ids_distinct s" "names_distinct s"
  shows "ids_distinct (fst (listAppsHandler s method body))
       \<and> names_distinct (fst (listAppsHandler s method body))"
  using assms
  by (auto simp: listAppsHandler_def newApp_def NewApplication_def ids_distinct_def
      names_distinct_def GetApplication_def GetApplication_loop_None split: option.splits)

lemma viewAppHandler_invariant:
  assumes "ids_distinct s" "names_distinct s"
  shows "ids_distinct (fst (viewAppHandler now s appName method body))
       \<and> names_distinct (fst (viewAppHandler now s appName method body))"
proof (cases "GetApplication s appName")
  case None
  then show ?thesis using assms by (simp add: viewAppHandler_def)
next
  case (Some app)
  then have mem: "app \<in> set (Applications s)" and name: "Name app = appName"
    using GetApplication_loop_Some [of "Applications s" appName app]
    by (simp_all add: GetApplication_def)
  from assms(1) mem have d: "distinct (map Id_inst (Instances app))"
    by (simp add: ids_distinct_def list_all_iff)
  show ?thesis
  proof (cases "newInstance now body")
    case (Inl code)
    then show ?thesis using Some assms by (simp add: viewAppHandler_def)
  next
    case (Inr inst)
    show ?thesis
    proof (cases "GetInstance app (Id_inst inst)")
      case None
      then have "Id_inst inst \<notin> Id_inst ` set (Instances app)"
        by (simp add: GetInstance_def GetInstance_loop_None)
      with d have "distinct (map Id_inst (Instances app @ [inst]))" by simp
      then show ?thesis
        using Some Inr None assms name
        by (simp add: viewAppHandler_def write_Application_def ids_distinct_def
            names_distinct_def store_Application_names store_Application_list_all)
    next
      case (Some found)
      then show ?thesis using \<open>GetApplication s appName = Some app\<close> Inr assms
        by (simp add: viewAppHandler_def)
    qed
  qed
qed

lemma viewInstanceHandler_invariant:
  assumes "ids_distinct s" "names_distinct s"
  shows "ids_distinct (fst (viewInstanceHandler now s appName instanceId method))
       \<and> names_distinct (fst (viewInstanceHandler now s appName instanceId method))"
proof (cases "GetApplication s appName")
  case None
  then show ?thesis using assms by (simp add: viewInstanceHandler_def)
next
  case app: (Some app)
  then have mem: "app \<in> set (Applications s)" and name: "Name app = appName"
    using GetApplication_loop_Some [of "Applications s" appName app]
    by (simp_all add: GetApplication_def)
  from assms(1) mem have d: "distinct (map Id_inst (Instances app))"
    by (simp add: ids_distinct_def list_all_iff)
  show ?thesis
  proof (cases "GetInstance app instanceId")
    case None
    then show ?thesis using app assms by (simp add: viewInstanceHandler_def)
  next
    case (Some inst)
    then have iid: "Id_inst inst = instanceId"
      by (simp add: GetInstance_def GetInstance_loop_Id)
    have w: "ids_distinct (write_Instance s app instanceId new)
           \<and> names_distinct (write_Instance s app instanceId new)"
      if "Id_inst new = instanceId" for new
      using that assms d name
      by (simp add: write_Instance_def write_Application_def ids_distinct_def names_distinct_def
          store_Application_names store_Application_list_all store_Instance_ids)
    have r: "Id_inst (fst (renewInstance now inst)) = instanceId"
      using iid by (simp add: renewInstance_Id)
    have dl: "Id_inst (fst (deleteInstance now inst)) = instanceId"
      using iid by (simp add: deleteInstance_Id)
    show ?thesis
      using app Some assms w [OF r] w [OF dl]
      by (simp add: viewInstanceHandler_def split_beta)
  qed
qed

lemma CheckHeartbeats_invariant:
  assumes "ids_distinct s" "names_distinct s"
  shows "ids_distinct (CheckHeartbeats rt et now s) \<and> names_distinct (CheckHeartbeats rt et now s)"
  using assms
  by (simp add: CheckHeartbeats_def ids_distinct_def names_distinct_def
      CheckHeartbeats_loop_names CheckHeartbeats_loop_ids)

section \<open>Claims\<close>

text \<open>
  C1. For every instance whose status is \<open>OUTOFSERVICE\<close>, a renewal is answered
  with 403 (the code by which the server reports the illegal state) and leaves
  the instance as it was: its status stays \<open>OUTOFSERVICE\<close> and its last renewal
  is not changed. The same holds for the \<^verbatim>\<open>PUT\<close> request on the instance's URL: the
  server's state is unchanged and the answer is 403.
\<close>

theorem C1_renew_out_of_service:
  assumes "Status inst = OUTOFSERVICE"
  shows "renewInstance now inst = (inst, 403)
     \<and> Status (fst (renewInstance now inst)) = OUTOFSERVICE
     \<and> LastRenewal (fst (renewInstance now inst)) = LastRenewal inst
     \<and> (GetApplication s appName = Some app \<longrightarrow> GetInstance app iid = Some inst \<longrightarrow>
          viewInstanceHandler now s appName iid ''PUT'' = (s, 403))"
proof -
  have r: "renewInstance now inst = (inst, 403)"
    using assms by (simp add: renewInstance_def)
  have h: "viewInstanceHandler now s appName iid ''PUT'' = (s, 403)"
    if "GetApplication s appName = Some app" "GetInstance app iid = Some inst"
    using that r by (simp add: viewInstanceHandler_def write_Instance_same)
  from r h assms show ?thesis by simp
qed

theorem C1_renew_out_of_service_witness:
  "renewInstance 200 (ex_inst OUTOFSERVICE 100) = (ex_inst OUTOFSERVICE 100, 403)
   \<and> Status (fst (renewInstance 200 (ex_inst OUTOFSERVICE 100))) = OUTOFSERVICE
   \<and> LastRenewal (fst (renewInstance 200 (ex_inst OUTOFSERVICE 100))) = 100
   \<and> viewInstanceHandler 200 (ex_server [ex_inst OUTOFSERVICE 100]) ''orders-api'' ''i1'' ''PUT''
       = (ex_server [ex_inst OUTOFSERVICE 100], 403)"
  using C1_renew_out_of_service [of "ex_inst OUTOFSERVICE 100" 200
      "ex_server [ex_inst OUTOFSERVICE 100]" "''orders-api''"
      "\<lparr>Name = ''orders-api'', Instances = [ex_inst OUTOFSERVICE 100]\<rparr>" "''i1''"]
  by (simp add: ex_inst_def ex_server_def GetApplication_def GetInstance_def)

text \<open>
  C2. For every application, \<open>GetAvailableInstances\<close> returns exactly the
  subsequence of the instances whose status is \<open>UP\<close>, in the order of the
  collection: an instance is among the returned ones precisely when it is in the
  collection with status \<open>UP\<close>, so instances with status \<open>STARTING\<close>, \<open>DOWN\<close> or
  \<open>OUTOFSERVICE\<close> are not returned.
\<close>

theorem C2_available_exactly_up:
  "GetAvailableInstances a = filter (\<lambda>i. Status i = UP) (Instances a)
   \<and> set (GetAvailableInstances a) = {i. i \<in> set (Instances a) \<and> Status i = UP}
   \<and> {i. i \<in> set (GetAvailableInstances a)
          \<and> (Status i = STARTING \<or> Status i = DOWN \<or> Status i = OUTOFSERVICE)} = {}"
proof -
  have eq: "GetAvailableInstances a = filter (\<lambda>i. Status i = UP) (Instances a)"
    by (simp add: GetAvailableInstances_def GetAvailableInstances_loop_filter)
  have mem: "set (GetAvailableInstances a) = {i. i \<in> set (Instances a) \<and> Status i = UP}"
    unfolding eq by auto
  have excl: "{i. i \<in> set (GetAvailableInstances a)
          \<and> (Status i = STARTING \<or> Status i = DOWN \<or> Status i = OUTOFSERVICE)} = {}"
    unfolding mem using status_distinct by auto
  from eq mem excl show ?thesis by blast
qed



text \<open>
  C4. For every id, address and port, the instance built by \<open>NewInstance\<close> has
  status \<open>STARTING\<close>, a last renewal equal to the clock reading taken at
  creation, and the id, address and port it was given. When a \<^verbatim>\<open>POST\<close> on an
  application's URL carries a complete request whose id is not yet in the
  application, that new instance is appended to the application's instances
  and the answer is 201.
\<close>

theorem C4_new_instance_starting:
  "Status (NewInstance now iid ip port) = STARTING
   \<and> LastRenewal (NewInstance now iid ip port) = now
   \<and> Id_inst (NewInstance now iid ip port) = iid
   \<and> IPAddr (NewInstance now iid ip port) = ip
   \<and> Port (NewInstance now iid ip port) = port
   \<and> (GetApplication s appName = Some app \<and> iid \<noteq> [] \<and> ip \<noteq> [] \<and> port \<noteq> 0
        \<and> GetInstance app iid = None \<longrightarrow>
        viewAppHandler now s appName ''POST'' (Some \<lparr>req_Id = iid, req_Ip = ip, req_Port = port\<rparr>)
          = (write_Application s appName
               (app\<lparr>Instances := Instances app @ [NewInstance now iid ip port]\<rparr>), 201))"
  by (simp add: NewInstance_def viewAppHandler_def newInstance_def)

theorem C4_new_instance_starting_witness:
  "Status (NewInstance 1000 ''i1'' ''10.0.0.1'' 9000) = STARTING
   \<and> LastRenewal (NewInstance 1000 ''i1'' ''10.0.0.1'' 9000) = 1000
   \<and> GetApplication (ex_server []) ''orders-api'' = Some \<lparr>Name = ''orders-api'', Instances = []\<rparr>
   \<and> viewAppHandler 1000 (ex_server []) ''orders-api'' ''POST''
         (Some \<lparr>req_Id = ''i1'', req_Ip = ''10.0.0.1'', req_Port = 9000\<rparr>)
       = (ex_server [NewInstance 1000 ''i1'' ''10.0.0.1'' 9000], 201)"
  using C4_new_instance_starting [of 1000 "''i1''" "''10.0.0.1''" 9000 "ex_server []"
      "''orders-api''" "\<lparr>Name = ''orders-api'', Instances = []\<rparr>"]
  by (simp add: ex_server_def GetApplication_def GetInstance_def write_Application_def)

text \<open>
  C5. With a renewal timeout of 90 seconds and an eviction timeout of 10 minutes,
  the sweep of an application does the following to the instance at any
  position of its collection. An instance in \<open>STARTING\<close> or \<open>UP\<close> that was last
  renewed 91 seconds ago becomes \<open>DOWN\<close>, with no other field changed (its last
  renewal included); one last renewed 89 seconds ago stays as it is. A \<open>DOWN\<close>
  instance last renewed 601 seconds ago is removed; one last renewed 599 seconds
  ago stays. Both comparisons are strict: the rules fire exactly when the age
  is greater than the timeout.
\<close>

theorem C5_strict_thresholds:
  assumes "Instances app = pre @ inst # post"
  shows "((Status inst = STARTING \<or> Status inst = UP) \<and> now - LastRenewal inst = 91 \<longrightarrow>
            Instances (Application_CheckHeartbeats 90 600 now app)
              = sweep_Instances 90 600 now pre @ inst\<lparr>Status := DOWN\<rparr> # sweep_Instances 90 600 now post)
       \<and> ((Status inst = STARTING \<or> Status inst = UP) \<and> now - LastRenewal inst = 89 \<longrightarrow>
            Instances (Application_CheckHeartbeats 90 600 now app)
              = sweep_Instances 90 600 now pre @ inst # sweep_Instances 90 600 now post)
       \<and> (Status inst = DOWN \<and> now - LastRenewal inst = 601 \<longrightarrow>
            Instances (Application_CheckHeartbeats 90 600 now app)
              = sweep_Instances 90 600 now pre @ sweep_Instances 90 600 now post)
       \<and> (Status inst = DOWN \<and> now - LastRenewal inst = 599 \<longrightarrow>
            Instances (Application_CheckHeartbeats 90 600 now app)
              = sweep_Instances 90 600 now pre @ inst # sweep_Instances 90 600 now post)
       \<and> (missedHeartbeat 90 now inst \<longleftrightarrow>
            (Status inst = STARTING \<or> Status inst = UP) \<and> 90 < now - LastRenewal inst)
       \<and> (evictable 600 now inst \<longleftrightarrow> Status inst = DOWN \<and> 600 < now - LastRenewal inst)"
  using assms
  by (auto simp: Application_CheckHeartbeats_def sweep_Instances_append
      missedHeartbeat_def evictable_def status_distinct)

theorem C5_strict_thresholds_witness:
  "Instances (Application_CheckHeartbeats 90 600 1091
       \<lparr>Name = ''orders-api'', Instances = [ex_inst UP 1000]\<rparr>) = [ex_inst DOWN 1000]
   \<and> Instances (Application_CheckHeartbeats 90 600 1089
       \<lparr>Name = ''orders-api'', Instances = [ex_inst UP 1000]\<rparr>) = [ex_inst UP 1000]
   \<and> Instances (Application_CheckHeartbeats 90 600 1601
       \<lparr>Name = ''orders-api'', Instances = [ex_inst DOWN 1000]\<rparr>) = []
   \<and> Instances (Application_CheckHeartbeats 90 600 1599
       \<lparr>Name = ''orders-api'', Instances = [ex_inst DOWN 1000]\<rparr>) = [ex_inst DOWN 1000]"
  using C5_strict_thresholds [of "\<lparr>Name = ''orders-api'', Instances = [ex_inst UP 1000]\<rparr>"
      "[]" "ex_inst UP 1000" "[]" 1091]
    C5_strict_thresholds [of "\<lparr>Name = ''orders-api'', Instances = [ex_inst UP 1000]\<rparr>"
      "[]" "ex_inst UP 1000" "[]" 1089]
    C5_strict_thresholds [of "\<lparr>Name = ''orders-api'', Instances = [ex_inst DOWN 1000]\<rparr>"
      "[]" "ex_inst DOWN 1000" "[]" 1601]
    C5_strict_thresholds [of "\<lparr>Name = ''orders-api'', Instances = [ex_inst DOWN 1000]\<rparr>"
      "[]" "ex_inst DOWN 1000" "[]" 1599]
  by (simp add: ex_inst_def)

text \<open>
  C6. On a server whose applications have distinct instance ids (the invariant
  \<open>ids_distinct\<close>, which every handler and the sweep keep), an instance that the
  sweep evicts (it is \<open>DOWN\<close> and older than the eviction timeout) leaves no
  instance with its id in its application after the sweep. A later \<^verbatim>\<open>POST\<close> of
  the same id, with an address and a port, is answered with 201, and the
  instance then found under that id is the one \<open>NewInstance\<close> builds at the time
  of that request: its status is \<open>STARTING\<close>, not the evicted instance's status,
  and its last renewal is the time of the request.
\<close>

theorem C6_eviction_then_fresh_instance:
  assumes app: "GetApplication s appName = Some app"
    and inv: "ids_distinct s"
    and inst: "inst \<in> set (Instances app)"
    and stale: "Status inst = DOWN" "now - LastRenewal inst > evictionTimeout"
    and req: "Id_inst inst \<noteq> []" "ip \<noteq> []" "port \<noteq> 0"
  shows "GetApplication (CheckHeartbeats renewalTimeout evictionTimeout now s) appName
           = Some (Application_CheckHeartbeats renewalTimeout evictionTimeout now app)
     \<and> Id_inst inst \<notin> Id_inst ` set (Instances
           (Application_CheckHeartbeats renewalTimeout evictionTimeout now app))
     \<and> GetInstance (Application_CheckHeartbeats renewalTimeout evictionTimeout now app)
           (Id_inst inst) = None
     \<and> snd (viewAppHandler now' (CheckHeartbeats renewalTimeout evictionTimeout now s) appName
           ''POST'' (Some \<lparr>req_Id = Id_inst inst, req_Ip = ip, req_Port = port\<rparr>)) = 201
     \<and> map_option (\<lambda>a. GetInstance a (Id_inst inst))
           (GetApplication
              (fst (viewAppHandler now' (CheckHeartbeats renewalTimeout evictionTimeout now s)
                 appName ''POST'' (Some \<lparr>req_Id = Id_inst inst, req_Ip = ip, req_Port = port\<rparr>)))
              appName)
         = Some (Some (NewInstance now' (Id_inst inst) ip port))
     \<and> Status (NewInstance now' (Id_inst inst) ip port) = STARTING
     \<and> Status (NewInstance now' (Id_inst inst) ip port) \<noteq> Status inst
     \<and> LastRenewal (NewInstance now' (Id_inst inst) ip port) = now'"
proof -
  let ?s = "CheckHeartbeats renewalTimeout evictionTimeout now s"
  let ?a = "Application_CheckHeartbeats renewalTimeout evictionTimeout now app"
  let ?new = "NewInstance now' (Id_inst inst) ip port"
  have name: "Name app = appName"
    using app by (simp add: GetApplication_def GetApplication_loop_Name)
  have ids: "distinct (map Id_inst (Instances app))"
    using inv app GetApplication_loop_Some [of "Applications s" appName app]
    by (simp add: ids_distinct_def GetApplication_def list_all_iff)
  have a: "GetApplication ?s appName = Some ?a"
    using app by (simp add: GetApplication_def CheckHeartbeats_def GetApplication_loop_sweep)
  have ev: "evictable evictionTimeout now inst"
    using stale by (simp add: evictable_def)
  have absent: "Id_inst inst \<notin> Id_inst ` set (Instances ?a)"
    using evicted_id_absent [OF ids inst ev]
    by (simp add: Application_CheckHeartbeats_def)
  have none: "GetInstance ?a (Id_inst inst) = None"
    using absent by (simp add: GetInstance_def GetInstance_loop_None)
  have idnew: "Id_inst ?new = Id_inst inst"
    by (simp add: NewInstance_def)
  have ni: "newInstance now' (Some \<lparr>req_Id = Id_inst inst, req_Ip = ip, req_Port = port\<rparr>)
              = Inr ?new"
    using req by (simp add: newInstance_def)
  have post: "viewAppHandler now' ?s appName ''POST''
                (Some \<lparr>req_Id = Id_inst inst, req_Ip = ip, req_Port = port\<rparr>)
              = (write_Application ?s appName (?a\<lparr>Instances := Instances ?a @ [?new]\<rparr>), 201)"
    using a none idnew ni by (simp add: viewAppHandler_def)
  have namea: "Name (?a\<lparr>Instances := Instances ?a @ [?new]\<rparr>) = appName"
    using name by (simp add: Application_CheckHeartbeats_def)
  have found: "GetApplication (write_Application ?s appName (?a\<lparr>Instances := Instances ?a @ [?new]\<rparr>))
                 appName = Some (?a\<lparr>Instances := Instances ?a @ [?new]\<rparr>)"
    using a namea
    by (simp add: GetApplication_def write_Application_def GetApplication_loop_store)
  have got: "GetInstance (?a\<lparr>Instances := Instances ?a @ [?new]\<rparr>) (Id_inst inst) = Some ?new"
    using none idnew by (simp add: GetInstance_def GetInstance_loop_snoc)
  have st: "Status ?new = STARTING" "LastRenewal ?new = now'"
    by (simp_all add: NewInstance_def)
  have diff: "Status ?new \<noteq> Status inst"
    using st stale by (simp add: status_distinct)
  show ?thesis
    using a absent none post found got st diff by simp
qed

theorem C6_eviction_then_fresh_instance_witness:
  "GetInstance (Application_CheckHeartbeats 90 600 1601
       \<lparr>Name = ''orders-api'', Instances = [ex_inst DOWN 1000]\<rparr>) ''i1'' = None
   \<and> snd (viewAppHandler 2000 (CheckHeartbeats 90 600 1601 (ex_server [ex_inst DOWN 1000]))
         ''orders-api'' ''POST'' (Some \<lparr>req_Id = ''i1'', req_Ip = ''10.0.0.2'', req_Port = 9001\<rparr>))
       = 201
   \<and> map_option (\<lambda>a. GetInstance a ''i1'')
         (GetApplication
            (fst (viewAppHandler 2000 (CheckHeartbeats 90 600 1601 (ex_server [ex_inst DOWN 1000]))
               ''orders-api'' ''POST''
               (Some \<lparr>req_Id = ''i1'', req_Ip = ''10.0.0.2'', req_Port = 9001\<rparr>)))
            ''orders-api'')
       = Some (Some (NewInstance 2000 ''i1'' ''10.0.0.2'' 9001))"
proof -
  let ?app = "\<lparr>Name = ''orders-api'', Instances = [ex_inst DOWN 1000]\<rparr>"
  have 1: "GetApplication (ex_server [ex_inst DOWN 1000]) ''orders-api'' = Some ?app"
    by (simp add: ex_server_def GetApplication_def)
  have 2: "ids_distinct (ex_server [ex_inst DOWN 1000])"
    by (simp add: ids_distinct_def ex_server_def)
  have 3: "ex_inst DOWN 1000 \<in> set (Instances ?app)" by simp
  have 4: "Status (ex_inst DOWN 1000) = DOWN" by (simp add: ex_inst_def)
  have 5: "(1601::int) - LastRenewal (ex_inst DOWN 1000) > 600" by (simp add: ex_inst_def)
  have 6: "Id_inst (ex_inst DOWN 1000) \<noteq> []" by (simp add: ex_inst_def)
  have 7: "''10.0.0.2'' \<noteq> []" by simp
  have 8: "(9001::int) \<noteq> 0" by simp
  have i: "Id_inst (ex_inst DOWN 1000) = ''i1''" by (simp add: ex_inst_def)
  show ?thesis
    using C6_eviction_then_fresh_instance [OF 1 2 3 4 5 6 7 8, of 90 2000]
    by (simp add: i)
qed

text \<open>
  C7. On a sweep tick the missed-heartbeat rule is tried first on every
  instance and the eviction rule only when the first did not fire; both read
  the instance as it was before the tick. So the result of a tick is: the
  instances that were not evictable before the tick, each marked \<open>DOWN\<close> when it
  missed its heartbeat. An instance in \<open>STARTING\<close> or \<open>UP\<close> that is marked \<open>DOWN\<close>
  in a tick is still in the collection after that tick, however old its last
  renewal is; a tick removes an instance exactly when it was already \<open>DOWN\<close>
  with a last renewal older than the eviction timeout. An instance marked
  \<open>DOWN\<close> in one tick is removed by a later tick once it is older than the
  eviction timeout.
\<close>

theorem C7_marked_down_not_evicted_same_tick:
  "sweep_Instances rt et now xs =
     map (\<lambda>i. if missedHeartbeat rt now i then i\<lparr>Status := DOWN\<rparr> else i)
       (filter (\<lambda>i. \<not> evictable et now i) xs)
   \<and> ((Status inst = STARTING \<or> Status inst = UP) \<and> now - LastRenewal inst > rt
        \<and> Instances app = pre @ inst # post \<longrightarrow>
        Instances (Application_CheckHeartbeats rt et now app)
          = sweep_Instances rt et now pre @ inst\<lparr>Status := DOWN\<rparr> # sweep_Instances rt et now post)
   \<and> (sweep_Instances rt et now [inst] = [] \<longleftrightarrow>
        Status inst = DOWN \<and> now - LastRenewal inst > et)
   \<and> ((Status inst = STARTING \<or> Status inst = UP) \<and> now - LastRenewal inst > rt
        \<and> now' - LastRenewal inst > et \<longrightarrow>
        sweep_Instances rt et now' (sweep_Instances rt et now [inst]) = [])"
proof -
  have a: "sweep_Instances rt et now xs =
     map (\<lambda>i. if missedHeartbeat rt now i then i\<lparr>Status := DOWN\<rparr> else i)
       (filter (\<lambda>i. \<not> evictable et now i) xs)"
    by (rule sweep_Instances_map_filter)
  have b: "Instances (Application_CheckHeartbeats rt et now app)
          = sweep_Instances rt et now pre @ inst\<lparr>Status := DOWN\<rparr> # sweep_Instances rt et now post"
    if "Status inst = STARTING \<or> Status inst = UP" "now - LastRenewal inst > rt"
       "Instances app = pre @ inst # post"
    using that
    by (simp add: Application_CheckHeartbeats_def sweep_Instances_append missedHeartbeat_def)
  have c: "sweep_Instances rt et now [inst] = [] \<longleftrightarrow>
        Status inst = DOWN \<and> now - LastRenewal inst > et"
    by (auto simp: missedHeartbeat_def evictable_def status_distinct)
  have d: "sweep_Instances rt et now' (sweep_Instances rt et now [inst]) = []"
    if "Status inst = STARTING \<or> Status inst = UP" "now - LastRenewal inst > rt"
       "now' - LastRenewal inst > et"
    using that by (auto simp: missedHeartbeat_def evictable_def status_distinct)
  from a b c d show ?thesis by blast
qed

theorem C7_marked_down_not_evicted_same_tick_witness:
  "sweep_Instances 90 600 5000 [ex_inst UP 1000] = [ex_inst DOWN 1000]
   \<and> Instances (Application_CheckHeartbeats 90 600 5000
        \<lparr>Name = ''orders-api'', Instances = [ex_inst UP 1000]\<rparr>) = [ex_inst DOWN 1000]
   \<and> sweep_Instances 90 600 5001 (sweep_Instances 90 600 5000 [ex_inst UP 1000]) = []"
  using C7_marked_down_not_evicted_same_tick [of 90 600 5000 "[ex_inst UP 1000]"
      "ex_inst UP 1000" "\<lparr>Name = ''orders-api'', Instances = [ex_inst UP 1000]\<rparr>" "[]" "[]" 5001]
  by (simp add: ex_inst_def missedHeartbeat_def evictable_def status_distinct)

text \<open>
  C8. The first step of \<^verbatim>\<open>RegisterService\<close>, \<open>RegisterService_app\<close>, is
  lookup-or-create. When an
  application with the name exists, it is returned and the server is unchanged.
  Otherwise an application with that name and no instances is appended to the
  server's applications and returned. Running the step a second time with the
  same name changes nothing more and returns the same application; the step
  keeps application names distinct, and after two registrations of a name that
  was absent there is exactly one application with that name. On the server,
  the explicit creation (\<^verbatim>\<open>POST\<close> on \<^verbatim>\<open>/apps\<close>) of a name that is taken is
  answered with 409 and changes nothing, the creation of a new name appends the
  empty application with 201, and no request on \<^verbatim>\<open>/apps\<close> breaks the
  distinctness of names.
\<close>

theorem C8_register_lookup_or_create:
  "(GetApplication s name = Some app \<longrightarrow> RegisterService_app s name = (s, Inr app))
   \<and> (GetApplication s name = None \<longrightarrow>
        RegisterService_app s name =
          (s\<lparr>Applications := Applications s @ [NewApplication name]\<rparr>, Inr (NewApplication name)))
   \<and> Name (NewApplication name) = name \<and> Instances (NewApplication name) = []
   \<and> RegisterService_app (fst (RegisterService_app s name)) name
        = (fst (RegisterService_app s name), snd (RegisterService_app s name))
   \<and> (names_distinct s \<longrightarrow> names_distinct (fst (RegisterService_app s name)))
   \<and> (name \<notin> Name ` set (Applications s) \<longrightarrow>
        length (filter (\<lambda>a. Name a = name)
          (Applications (fst (RegisterService_app (fst (RegisterService_app s name)) name)))) = 1)
   \<and> (GetApplication s name = Some app \<longrightarrow>
        listAppsHandler s ''POST'' (Some name) = (s, 409))
   \<and> (GetApplication s name = None \<longrightarrow>
        listAppsHandler s ''POST'' (Some name)
          = (s\<lparr>Applications := Applications s @ [NewApplication name]\<rparr>, 201))
   \<and> (names_distinct s \<longrightarrow> names_distinct (fst (listAppsHandler s method body)))"
proof -
  have g: "listAppsHandler s ''POST'' (Some name) = (s, 409)"
    if "GetApplication s name = Some app"
    using that by (simp add: listAppsHandler_def newApp_def NewApplication_def)
  have h: "listAppsHandler s ''POST'' (Some name)
          = (s\<lparr>Applications := Applications s @ [NewApplication name]\<rparr>, 201)"
    if "GetApplication s name = None"
    using that by (simp add: listAppsHandler_def newApp_def NewApplication_def)
  have i: "names_distinct (fst (listAppsHandler s method body))" if "names_distinct s"
    using that
    by (auto simp: listAppsHandler_def newApp_def NewApplication_def names_distinct_def
        GetApplication_def GetApplication_loop_None split: option.splits)
  have a: "RegisterService_app s name = (s, Inr app)" if "GetApplication s name = Some app"
    using that by (rule RegisterService_app_found)
  have b: "RegisterService_app s name =
          (s\<lparr>Applications := Applications s @ [NewApplication name]\<rparr>, Inr (NewApplication name))"
    if "GetApplication s name = None"
    using that by (rule RegisterService_app_absent)
  have c: "Name (NewApplication name) = name" "Instances (NewApplication name) = []"
    by (simp_all add: NewApplication_def)
  have d: "RegisterService_app (fst (RegisterService_app s name)) name
        = (fst (RegisterService_app s name), snd (RegisterService_app s name))"
  proof (cases "GetApplication s name")
    case None
    have "GetApplication (s\<lparr>Applications := Applications s @ [NewApplication name]\<rparr>) name
            = Some (NewApplication name)"
      using None c(1) by (simp add: GetApplication_def GetApplication_loop_snoc)
    then show ?thesis
      using b [OF None] by (simp add: RegisterService_app_found)
  next
    case (Some found)
    then show ?thesis by (simp add: RegisterService_app_found)
  qed
  have e: "names_distinct (fst (RegisterService_app s name))"
    if inv: "names_distinct s"
  proof (cases "GetApplication s name")
    case None
    then have "name \<notin> Name ` set (Applications s)"
      by (simp add: GetApplication_def GetApplication_loop_None)
    then show ?thesis using inv b [OF None] c(1) by (simp add: names_distinct_def)
  next
    case (Some found)
    then show ?thesis using inv by (simp add: RegisterService_app_found)
  qed
  have f: "length (filter (\<lambda>a. Name a = name)
          (Applications (fst (RegisterService_app (fst (RegisterService_app s name)) name)))) = 1"
    if absent: "name \<notin> Name ` set (Applications s)"
  proof -
    from absent have none: "GetApplication s name = None"
      by (simp add: GetApplication_def GetApplication_loop_None)
    from absent have "filter (\<lambda>a. Name a = name) (Applications s) = []"
      by (auto simp: filter_empty_conv)
    then show ?thesis
      using d b [OF none] c(1) by simp
  qed
  from a b c d e f g h i show ?thesis by blast
qed

theorem C8_register_lookup_or_create_witness:
  "RegisterService_app (NewServer '':8080'') ''orders-api''
     = (ex_server [], Inr \<lparr>Name = ''orders-api'', Instances = []\<rparr>)
   \<and> RegisterService_app (ex_server []) ''orders-api''
     = (ex_server [], Inr \<lparr>Name = ''orders-api'', Instances = []\<rparr>)
   \<and> names_distinct (fst (RegisterService_app (ex_server []) ''billing''))
   \<and> length (filter (\<lambda>a. Name a = ''orders-api'')
        (Applications (fst (RegisterService_app
           (fst (RegisterService_app (NewServer '':8080'') ''orders-api'')) ''orders-api'')))) = 1
   \<and> listAppsHandler (NewServer '':8080'') ''POST'' (Some ''orders-api'') = (ex_server [], 201)
   \<and> listAppsHandler (ex_server []) ''POST'' (Some ''orders-api'') = (ex_server [], 409)"
proof -
  have 1: "GetApplication (NewServer '':8080'') ''orders-api'' = None"
    by (simp add: NewServer_def GetApplication_def)
  have 2: "GetApplication (ex_server []) ''orders-api''
             = Some \<lparr>Name = ''orders-api'', Instances = []\<rparr>"
    by (simp add: ex_server_def GetApplication_def)
  have 3: "names_distinct (ex_server [])"
    by (simp add: ex_server_def names_distinct_def)
  have 4: "''orders-api'' \<notin> Name ` set (Applications (NewServer '':8080''))"
    by (simp add: NewServer_def)
  show ?thesis
    using C8_register_lookup_or_create [of "NewServer '':8080''" "''orders-api''"
        "\<lparr>Name = ''orders-api'', Instances = []\<rparr>"]
      C8_register_lookup_or_create [of "ex_server []" "''orders-api''"
        "\<lparr>Name = ''orders-api'', Instances = []\<rparr>"]
      C8_register_lookup_or_create [of "ex_server []" "''billing''"
        "\<lparr>Name = ''orders-api'', Instances = []\<rparr>" "''POST''" "Some ''billing''"]
      1 2 3 4
    by (simp add: NewServer_def ex_server_def NewApplication_def)
qed

text \<open>
  C9. \<open>GetApplication\<close>, the lookup of the registry, has no error result: for a
  name that no application has it returns \<open>None\<close> (Go's \<^verbatim>\<open>nil\<close>), and only then;
  for a name that some application has it returns an application of the
  collection with that name, the first one; when names are distinct it
  returns, for the name of any registered application, that application.
\<close>

theorem C9_find_absent_is_not_an_error:
  "(GetApplication s name = None \<longleftrightarrow> name \<notin> Name ` set (Applications s))
   \<and> (name \<in> Name ` set (Applications s) \<longrightarrow>
        (\<exists>app. GetApplication s name = Some app \<and> app \<in> set (Applications s) \<and> Name app = name))
   \<and> (names_distinct s \<and> app \<in> set (Applications s) \<longrightarrow>
        GetApplication s (Name app) = Some app)
   \<and> GetApplication s name = find (\<lambda>a. Name a = name) (Applications s)"
proof -
  have a: "GetApplication s name = None \<longleftrightarrow> name \<notin> Name ` set (Applications s)"
    by (simp add: GetApplication_def GetApplication_loop_None)
  have b: "\<exists>app. GetApplication s name = Some app \<and> app \<in> set (Applications s) \<and> Name app = name"
    if "name \<in> Name ` set (Applications s)"
  proof -
    from that a obtain app where "GetApplication s name = Some app" by auto
    then show ?thesis
      using GetApplication_loop_Some [of "Applications s" name app]
      by (simp add: GetApplication_def)
  qed
  have c: "GetApplication s (Name app) = Some app"
    if "names_distinct s" "app \<in> set (Applications s)"
    using that by (simp add: names_distinct_def GetApplication_def GetApplication_loop_distinct)
  have d: "GetApplication s name = find (\<lambda>a. Name a = name) (Applications s)"
    by (simp add: GetApplication_def GetApplication_loop_find)
  from a b c d show ?thesis by blast
qed

theorem C9_find_absent_is_not_an_error_witness:
  "''billing'' \<notin> Name ` set (Applications (ex_server []))
   \<and> GetApplication (ex_server []) ''billing'' = None
   \<and> ''orders-api'' \<in> Name ` set (Applications (ex_server []))
   \<and> GetApplication (ex_server []) ''orders-api''
       = Some \<lparr>Name = ''orders-api'', Instances = []\<rparr>"
  using C9_find_absent_is_not_an_error [of "ex_server []" "''billing''"
      "\<lparr>Name = ''orders-api'', Instances = []\<rparr>"]
    C9_find_absent_is_not_an_error [of "ex_server []" "''orders-api''"
      "\<lparr>Name = ''orders-api'', Instances = []\<rparr>"]
  by (simp add: ex_server_def)

text \<open>
  C10. Neither query changes the application it is called on. On a well-formed
  store, \<open>GetAvailableInstances\<close> returns a slice at an address that held no
  slice before the call and holds one after it: the slice is allocated by the
  call, the allocation mark moves past it, and the store is well formed again.
  Afterwards every \<open>Instance\<close> object and every other slice are as before, so
  the application's collection has the same length, elements and order; the
  new slice holds the pointers to the \<open>UP\<close> instances in the order of the
  collection (none of them when no instance is \<open>UP\<close>: the slice is then
  allocated and empty). \<open>GetInstance\<close> writes nothing and returns the
  first pointer, in the order of the collection, whose instance has the id,
  or \<^verbatim>\<open>nil\<close> when no instance has it. Both agree with the queries on values.
\<close>

theorem C10_queries_leave_application_unchanged:
  assumes "wf_Store st a"
  shows "(\<exists>st'. GetAvailableInstances_store st a = Inr (st', next_addr st)
            \<and> instance_at st' = instance_at st
            \<and> slice_at st' = (slice_at st)(next_addr st := slice_at st' (next_addr st))
            \<and> slice_at st (next_addr st) = None
            \<and> slice_at st' (next_addr st)
                 = Some (filter (\<lambda>p. Status (deref st p) = UP) (slice_of st (Instances_ptr a)))
            \<and> next_addr st' = Suc (next_addr st)
            \<and> wf_Store st' a
            \<and> Application_of st' a = Application_of st a
            \<and> slice_of st' (next_addr st)
                 = filter (\<lambda>p. Status (deref st p) = UP) (slice_of st (Instances_ptr a))
            \<and> subseq (slice_of st' (next_addr st)) (slice_of st (Instances_ptr a))
            \<and> map (deref st') (slice_of st' (next_addr st))
                 = GetAvailableInstances (Application_of st a))
     \<and> GetInstance_store st a iid
          = Inr (find (\<lambda>p. Id_inst (deref st p) = iid) (slice_of st (Instances_ptr a)))
     \<and> map_option (deref st)
          (find (\<lambda>p. Id_inst (deref st p) = iid) (slice_of st (Instances_ptr a)))
          = GetInstance (Application_of st a) iid
     \<and> (GetInstance app iid = None \<longleftrightarrow> iid \<notin> Id_inst ` set (Instances app))
     \<and> (Instances app = pre @ inst # post \<and> iid \<notin> Id_inst ` set pre \<and> Id_inst inst = iid
          \<longrightarrow> GetInstance app iid = Some inst)
     \<and> GetAvailableInstances app = filter (\<lambda>i. Status i = UP) (Instances app)
     \<and> subseq (GetAvailableInstances app) (Instances app)"
proof -
  let ?ps = "slice_of st (Instances_ptr a)"
  let ?r = "next_addr st"
  let ?up = "filter (\<lambda>p. Status (deref st p) = UP) ?ps"
  let ?st' = "st\<lparr>slice_at := (slice_at st)(?r \<mapsto> ?up), next_addr := Suc ?r\<rparr>"
  have res: "GetAvailableInstances_store st a = Inr (?st', ?r)"
    using assms by (rule GetAvailableInstances_store_result)
  from assms have fresh: "slice_at st ?r = None"
    by (auto simp: wf_Store_def)
  from assms have ne: "Instances_ptr a \<noteq> ?r"
    by (auto simp: wf_Store_def)
  have obj: "instance_at ?st' = instance_at st" by simp
  have frame: "slice_at ?st' = (slice_at st)(?r := slice_at ?st' ?r)" by simp
  have der: "deref ?st' = deref st"
    by (simp add: deref_def fun_eq_iff)
  have same: "slice_of ?st' (Instances_ptr a) = ?ps"
    using ne by (simp add: slice_of_def)
  have app: "Application_of ?st' a = Application_of st a"
    by (simp only: Application_of_def der same)
  have new: "slice_of ?st' ?r = ?up"
    by (simp add: slice_of_def)
  have sub: "subseq (slice_of ?st' ?r) ?ps"
    by (simp only: new subseq_filter_left)
  have val: "map (deref ?st') (slice_of ?st' ?r) = GetAvailableInstances (Application_of st a)"
    by (simp only: new der)
       (simp add: GetAvailableInstances_def GetAvailableInstances_loop_filter
          Application_of_def filter_map comp_def)
  have alloc: "slice_at ?st' ?r = Some ?up" "next_addr ?st' = Suc ?r"
    by simp_all
  have wf': "wf_Store ?st' a"
  proof -
    from assms have d: "dom (slice_at st) \<subseteq> {..<?r}"
      and m: "Instances_ptr a \<in> dom (slice_at st)"
      and v: "set ?ps \<subseteq> dom (instance_at st)"
      by (simp_all add: wf_Store_def)
    from d have "dom (slice_at ?st') \<subseteq> {..<next_addr ?st'}" by auto
    moreover from m have "Instances_ptr a \<in> dom (slice_at ?st')" by auto
    moreover from v have "set (slice_of ?st' (Instances_ptr a)) \<subseteq> dom (instance_at ?st')"
      by (simp only: same obj)
    ultimately show ?thesis by (simp only: wf_Store_def)
  qed
  have part1: "\<exists>st'. GetAvailableInstances_store st a = Inr (st', ?r)
            \<and> instance_at st' = instance_at st
            \<and> slice_at st' = (slice_at st)(?r := slice_at st' ?r)
            \<and> slice_at st ?r = None
            \<and> slice_at st' ?r = Some ?up
            \<and> next_addr st' = Suc ?r
            \<and> wf_Store st' a
            \<and> Application_of st' a = Application_of st a
            \<and> slice_of st' ?r = ?up
            \<and> subseq (slice_of st' ?r) ?ps
            \<and> map (deref st') (slice_of st' ?r) = GetAvailableInstances (Application_of st a)"
    using res obj frame fresh alloc wf' app new sub val by blast
  from assms have valid: "set ?ps \<subseteq> dom (instance_at st)"
    by (simp add: wf_Store_def)
  have gi: "GetInstance_store st a iid = Inr (find (\<lambda>p. Id_inst (deref st p) = iid) ?ps)"
    using valid by (simp add: GetInstance_store_def GetInstance_store_loop_find)
  have gv: "map_option (deref st) (find (\<lambda>p. Id_inst (deref st p) = iid) ?ps)
              = GetInstance (Application_of st a) iid"
    by (simp add: GetInstance_def GetInstance_loop_find Application_of_def find_map_deref)
  have n: "GetInstance app iid = None \<longleftrightarrow> iid \<notin> Id_inst ` set (Instances app)"
    by (simp add: GetInstance_def GetInstance_loop_None)
  have f: "GetInstance app iid = Some inst"
    if "Instances app = pre @ inst # post" "iid \<notin> Id_inst ` set pre" "Id_inst inst = iid"
    using that by (simp add: GetInstance_def GetInstance_loop_first)
  have fl: "GetAvailableInstances app = filter (\<lambda>i. Status i = UP) (Instances app)"
    by (simp add: GetAvailableInstances_def GetAvailableInstances_loop_filter)
  have sq: "subseq (GetAvailableInstances app) (Instances app)"
    by (simp only: fl subseq_filter_left)
  from part1 gi gv n f fl sq show ?thesis by blast
qed

theorem C10_queries_leave_application_unchanged_witness:
  "wf_Store ex_store ex_app_ptr
   \<and> (\<exists>st'. GetAvailableInstances_store ex_store ex_app_ptr = Inr (st', 21)
          \<and> instance_at st' = instance_at ex_store
          \<and> slice_at st' 20 = Some [10, 11]
          \<and> slice_at st' 21 = Some [10]
          \<and> next_addr st' = 22
          \<and> wf_Store st' ex_app_ptr)
   \<and> GetInstance_store ex_store ex_app_ptr ''i1'' = Inr (Some 10)
   \<and> GetInstance (Application_of ex_store ex_app_ptr) ''i1'' = Some (ex_inst UP 100)"
proof -
  have wf: "wf_Store ex_store ex_app_ptr"
    by (simp add: wf_Store_def ex_store_def ex_app_ptr_def slice_of_def)
  have n: "next_addr ex_store = 21" by (simp add: ex_store_def)
  have ps: "slice_of ex_store (Instances_ptr ex_app_ptr) = [10, 11]"
    by (simp add: ex_store_def ex_app_ptr_def slice_of_def)
  have d: "deref ex_store 10 = ex_inst UP 100" "deref ex_store 11 = ex_inst DOWN 50"
    by (simp_all add: ex_store_def deref_def)
  have s2: "slice_at ex_store 20 = Some [10, 11]" by (simp add: ex_store_def)
  note inst_thm = C10_queries_leave_application_unchanged
    [OF wf, of "''i1''" "\<lparr>Name = ''a'', Instances = []\<rparr>" "[]" "ex_inst UP 100" "[]"]
  from inst_thm obtain st' where st':
    "GetAvailableInstances_store ex_store ex_app_ptr = Inr (st', next_addr ex_store)"
    "instance_at st' = instance_at ex_store"
    "slice_at st' = (slice_at ex_store)(next_addr ex_store := slice_at st' (next_addr ex_store))"
    "slice_at st' (next_addr ex_store)
       = Some (filter (\<lambda>p. Status (deref ex_store p) = UP)
           (slice_of ex_store (Instances_ptr ex_app_ptr)))"
    "next_addr st' = Suc (next_addr ex_store)"
    "wf_Store st' ex_app_ptr"
    by blast
  have a: "slice_at st' 20 = Some [10, 11]"
    using fun_cong [OF st'(3), of 20] by (simp add: n s2)
  have b: "slice_at st' 21 = Some [10]"
    using st'(4) by (simp add: n ps d ex_inst_def status_distinct)
  have c: "next_addr st' = 22"
    using st'(5) by (simp add: n)
  from inst_thm have gi: "GetInstance_store ex_store ex_app_ptr ''i1'' = Inr (Some 10)"
    by (simp add: ps d ex_inst_def)
  from inst_thm have gv:
    "GetInstance (Application_of ex_store ex_app_ptr) ''i1'' = Some (ex_inst UP 100)"
    by (simp add: ps d ex_inst_def)
  from wf st'(1,2,6) a b c gi gv n show ?thesis by auto
qed

end
